theory Spec2Isabelle
  imports Main "HOL-Library.Multiset" "HOL-Library.Sublist"
begin

section \<open>Data model (types.ts)\<close>

text \<open>
  The records follow \<^verbatim>\<open>types.ts\<close> and the object literals of \<^verbatim>\<open>utils/db.ts\<close>.
  Identifiers are strings that the database only compares, so their type is a parameter
  \<open>'k\<close> with a linear order (the key order of the object store). A \<^verbatim>\<open>Blob\<close> is opaque:
  a parameter \<open>'b\<close>. The numeric fields hold integers (page indices, counts and
  millisecond time stamps), modelled as \<open>int\<close>. The field \<^verbatim>\<open>id\<close> is called
  \<open>page_id\<close> resp. \<open>comic_id\<close>, since \<open>id\<close> is the identity function of HOL.

  A page as it is stored carries the \<^verbatim>\<open>comicId\<close> of its parent in addition to the
  three fields of \<^verbatim>\<open>ComicPage\<close>. The optional \<^verbatim>\<open>lastReadPage\<close> is an \<open>option\<close>:
  \<open>None\<close> is JavaScript's \<^verbatim>\<open>undefined\<close>.
\<close>

record ('k, 'b) ComicPage =
  page_id :: 'k
  blob :: 'b
  order :: int

record ('k, 'b) StoredPage = "('k, 'b) ComicPage" +
  comicId :: 'k

record ('k, 'b) Comic =
  comic_id :: 'k
  title :: string
  coverImageBlob :: "'b option"
  createdAt :: int
  totalPages :: int
  lastReadPage :: "int option"


section \<open>The embedded database\<close>

subsection \<open>Schema (openDB)\<close>

record index_def =
  index_name :: string
  index_keyPath :: string
  index_unique :: bool

record store_def =
  store_name :: string
  store_keyPath :: string
  store_indexes :: "index_def list"

type_synonym schema = "store_def list"

definition DB_VERSION :: nat where
  "DB_VERSION = 1"

definition STORE_COMICS :: string where
  "STORE_COMICS = ''comics''"

definition STORE_PAGES :: string where
  "STORE_PAGES = ''pages''"

definition objectStoreNames :: "schema \<Rightarrow> string list" where
  "objectStoreNames db = map store_name db"

definition createObjectStore :: "string \<Rightarrow> string \<Rightarrow> schema \<Rightarrow> schema" where
  "createObjectStore name kp db =
     db @ [\<lparr>store_name = name, store_keyPath = kp, store_indexes = []\<rparr>]"

definition createIndex :: "string \<Rightarrow> string \<Rightarrow> string \<Rightarrow> bool \<Rightarrow> schema \<Rightarrow> schema" where
  "createIndex st name kp uniq db =
     map (\<lambda>s. if store_name s = st
               then s\<lparr>store_indexes := store_indexes s @
                      [\<lparr>index_name = name, index_keyPath = kp, index_unique = uniq\<rparr>]\<rparr>
               else s) db"

text \<open>The handler \<^verbatim>\<open>request.onupgradeneeded\<close> of \<^verbatim>\<open>openDB\<close>.\<close>

definition onupgradeneeded :: "schema \<Rightarrow> schema" where
  "onupgradeneeded db =
     (let db1 = (if STORE_COMICS \<notin> set (objectStoreNames db)
                 then createObjectStore STORE_COMICS ''id'' db else db)
      in if STORE_PAGES \<notin> set (objectStoreNames db1)
         then createIndex STORE_PAGES ''comicId'' ''comicId'' False
                (createObjectStore STORE_PAGES ''id'' db1)
         else db1)"

text \<open>
  \<^verbatim>\<open>indexedDB.open(DB_NAME, DB_VERSION)\<close>: the argument is the database the browser holds
  under that name, \<open>None\<close> when there is none. A database that does not exist yet has
  version 0 and no store, and is upgraded; one of a higher version is refused.
\<close>

text \<open>
  What a promise is rejected with: an \<^verbatim>\<open>Error\<close> with its message, the \<^verbatim>\<open>DOMException\<close>
  of a failed request, or \<^verbatim>\<open>null\<close>.
\<close>

datatype error = Error string | DOMException | JsNull

definition openDB :: "(nat \<times> schema) option \<Rightarrow> error + nat \<times> schema" where
  "openDB existing =
     (let (v, db) = (case existing of None \<Rightarrow> (0, []) | Some e \<Rightarrow> e)
      in if DB_VERSION < v then Inl DOMException
         else if v < DB_VERSION then Inr (DB_VERSION, onupgradeneeded db)
         else Inr (v, db))"

text \<open>
  The persistence operations of \<^verbatim>\<open>utils/db.ts\<close>, the stores each one names in
  \<^verbatim>\<open>db.transaction(...)\<close>, and the stores it takes from that transaction with
  \<^verbatim>\<open>transaction.objectStore(...)\<close>.
\<close>

datatype persistence_op =
  SaveComic | GetAllComics | GetComicPages | UpdateComicProgress | UpdateComicCover
  | DeleteComic | DeleteComicPage | UpdateComicTitle

fun transaction_stores :: "persistence_op \<Rightarrow> string list" where
  "transaction_stores SaveComic = [STORE_COMICS, STORE_PAGES]"
| "transaction_stores GetAllComics = [STORE_COMICS]"
| "transaction_stores GetComicPages = [STORE_PAGES]"
| "transaction_stores UpdateComicProgress = [STORE_COMICS]"
| "transaction_stores UpdateComicCover = [STORE_COMICS]"
| "transaction_stores DeleteComic = [STORE_COMICS, STORE_PAGES]"
| "transaction_stores DeleteComicPage = [STORE_PAGES, STORE_COMICS]"
| "transaction_stores UpdateComicTitle = [STORE_COMICS]"

fun objectStore_calls :: "persistence_op \<Rightarrow> string list" where
  "objectStore_calls SaveComic = [STORE_COMICS, STORE_PAGES]"
| "objectStore_calls GetAllComics = [STORE_COMICS]"
| "objectStore_calls GetComicPages = [STORE_PAGES]"
| "objectStore_calls UpdateComicProgress = [STORE_COMICS]"
| "objectStore_calls UpdateComicCover = [STORE_COMICS]"
| "objectStore_calls DeleteComic = [STORE_COMICS, STORE_PAGES]"
| "objectStore_calls DeleteComicPage = [STORE_PAGES, STORE_COMICS]"
| "objectStore_calls UpdateComicTitle = [STORE_COMICS]"

text \<open>The indexes an operation opens with \<^verbatim>\<open>store.index(...)\<close>: store and index name.\<close>

fun index_calls :: "persistence_op \<Rightarrow> (string \<times> string) list" where
  "index_calls GetComicPages = [(STORE_PAGES, ''comicId'')]"
| "index_calls DeleteComic = [(STORE_PAGES, ''comicId'')]"
| "index_calls DeleteComicPage = [(STORE_PAGES, ''comicId'')]"
| "index_calls _ = []"


subsection \<open>Object stores\<close>

text \<open>
  An object store with key path \<^verbatim>\<open>id\<close> holds at most one record per key and hands its
  records out in ascending key order. It is modelled as the list of its records in
  that order; \<open>key\<close> is the selector of the key path.
\<close>

definition wf_store :: "('r \<Rightarrow> 'k::linorder) \<Rightarrow> 'r list \<Rightarrow> bool" where
  "wf_store key rs = sorted_wrt (<) (map key rs)"

definition store_get :: "('r \<Rightarrow> 'k) \<Rightarrow> 'k \<Rightarrow> 'r list \<Rightarrow> 'r option" where
  "store_get key k rs = find (\<lambda>r. key r = k) rs"

definition store_delete :: "('r \<Rightarrow> 'k) \<Rightarrow> 'k \<Rightarrow> 'r list \<Rightarrow> 'r list" where
  "store_delete key k rs = filter (\<lambda>r. key r \<noteq> k) rs"

fun store_put :: "('r \<Rightarrow> 'k::linorder) \<Rightarrow> 'r \<Rightarrow> 'r list \<Rightarrow> 'r list" where
  "store_put key r [] = [r]"
| "store_put key r (x # xs) =
     (if key r < key x then r # x # xs
      else if key r = key x then r # xs
      else x # store_put key r xs)"

text \<open>
  The index \<^verbatim>\<open>comicId\<close> of the page store is ordered by the index key and then by the
  primary key, so the records of one \<^verbatim>\<open>comicId\<close> come in the order of the store.
\<close>

definition index_getAll :: "'k \<Rightarrow> ('k, 'b) StoredPage list \<Rightarrow> ('k, 'b) StoredPage list" where
  "index_getAll c ps = filter (\<lambda>p. comicId p = c) ps"

record ('k, 'b) database =
  comics :: "('k, 'b) Comic list"
  pages :: "('k, 'b) StoredPage list"

definition wf_db :: "('k::linorder, 'b) database \<Rightarrow> bool" where
  "wf_db db \<longleftrightarrow> wf_store comic_id (comics db) \<and> wf_store page_id (pages db)"

text \<open>
  What the database engine does to an operation: nothing, or it fails to open, or a
  reading request (\<^verbatim>\<open>get\<close>, \<^verbatim>\<open>getAll\<close>, \<^verbatim>\<open>openCursor\<close>) fails, or a writing request
  (\<^verbatim>\<open>put\<close>, \<^verbatim>\<open>delete\<close>) fails. A failed request whose error nobody cancels aborts its
  transaction, which undoes the transaction's writes. An operation that listens on the
  request rejects with \<^verbatim>\<open>request.error\<close>, the engine's \<open>DOMException\<close>, and so does one
  whose \<^verbatim>\<open>openDB\<close> fails. An operation that listens on the transaction only rejects
  with \<^verbatim>\<open>transaction.error\<close>, which is still \<^verbatim>\<open>null\<close> while the handler
  \<^verbatim>\<open>transaction.onerror\<close> runs: \<open>JsNull\<close>.
\<close>

datatype idb_fault = NoFault | OpenFailed | ReadFailed | WriteFailed


subsection \<open>Array.prototype.sort with a comparator\<close>

text \<open>
  \<^verbatim>\<open>sort\<close> is stable, and the comparators of this program are differences of an integer
  field, hence consistent; the result is then the one of any stable sort. \<open>js_sort\<close> is
  insertion sort, which puts an element before the first one it does not compare
  greater than.
\<close>

fun js_insert :: "('a \<Rightarrow> 'a \<Rightarrow> int) \<Rightarrow> 'a \<Rightarrow> 'a list \<Rightarrow> 'a list" where
  "js_insert cmp a [] = [a]"
| "js_insert cmp a (b # bs) =
     (if cmp a b \<le> 0 then a # b # bs else b # js_insert cmp a bs)"

definition js_sort :: "('a \<Rightarrow> 'a \<Rightarrow> int) \<Rightarrow> 'a list \<Rightarrow> 'a list" where
  "js_sort cmp xs = foldr (js_insert cmp) xs []"


subsection \<open>The operations of utils/db.ts\<close>

definition saveComic ::
  "idb_fault \<Rightarrow> ('k::linorder, 'b) Comic \<Rightarrow> ('k, 'b) StoredPage list \<Rightarrow> ('k, 'b) database
     \<Rightarrow> (error + unit) \<times> ('k, 'b) database" where
  "saveComic f comic ps db =
     (if f = OpenFailed then (Inl DOMException, db)
      else if f = WriteFailed then (Inl JsNull, db)
      else (Inr (),
            db\<lparr>comics := store_put comic_id comic (comics db),
               pages := fold (store_put page_id) ps (pages db)\<rparr>))"

definition getAllComics ::
  "idb_fault \<Rightarrow> ('k, 'b) database \<Rightarrow> error + ('k, 'b) Comic list" where
  "getAllComics f db =
     (if f = OpenFailed \<or> f = ReadFailed then Inl DOMException
      else Inr (js_sort (\<lambda>a b. createdAt b - createdAt a) (comics db)))"

definition getComicPages ::
  "idb_fault \<Rightarrow> 'k \<Rightarrow> ('k, 'b) database \<Rightarrow> error + ('k, 'b) ComicPage list" where
  "getComicPages f c db =
     (if f = OpenFailed \<or> f = ReadFailed then Inl DOMException
      else let ps = js_sort (\<lambda>a b. order a - order b) (index_getAll c (pages db))
           in Inr (map (\<lambda>p. \<lparr>page_id = page_id p, blob = blob p, order = order p\<rparr>) ps))"

definition updateComicProgress ::
  "idb_fault \<Rightarrow> 'k::linorder \<Rightarrow> int \<Rightarrow> ('k, 'b) database
     \<Rightarrow> (error + unit) \<times> ('k, 'b) database" where
  "updateComicProgress f c pageIndex db =
     (if f = OpenFailed \<or> f = ReadFailed then (Inl DOMException, db)
      else case store_get comic_id c (comics db) of
        Some comic \<Rightarrow>
          if f = WriteFailed then (Inl DOMException, db)
          else (Inr (), db\<lparr>comics :=
                  store_put comic_id (comic\<lparr>lastReadPage := Some pageIndex\<rparr>) (comics db)\<rparr>)
      | None \<Rightarrow> (Inr (), db))"

definition updateComicCover ::
  "idb_fault \<Rightarrow> 'k::linorder \<Rightarrow> 'b \<Rightarrow> ('k, 'b) database
     \<Rightarrow> (error + unit) \<times> ('k, 'b) database" where
  "updateComicCover f c coverBlob db =
     (if f = OpenFailed \<or> f = ReadFailed then (Inl DOMException, db)
      else case store_get comic_id c (comics db) of
        Some comic \<Rightarrow>
          if f = WriteFailed then (Inl DOMException, db)
          else (Inr (), db\<lparr>comics :=
                  store_put comic_id (comic\<lparr>coverImageBlob := Some coverBlob\<rparr>) (comics db)\<rparr>)
      | None \<Rightarrow> (Inl (Error ''Comic not found''), db))"

definition updateComicTitle ::
  "idb_fault \<Rightarrow> 'k::linorder \<Rightarrow> string \<Rightarrow> ('k, 'b) database
     \<Rightarrow> (error + unit) \<times> ('k, 'b) database" where
  "updateComicTitle f c newTitle db =
     (if f = OpenFailed \<or> f = ReadFailed then (Inl DOMException, db)
      else case store_get comic_id c (comics db) of
        Some comic \<Rightarrow>
          if f = WriteFailed then (Inl DOMException, db)
          else (Inr (), db\<lparr>comics :=
                  store_put comic_id (comic\<lparr>title := newTitle\<rparr>) (comics db)\<rparr>)
      | None \<Rightarrow> (Inl (Error ''Comic not found for title update''), db))"

text \<open>
  The cursor of \<^verbatim>\<open>deleteComic\<close> walks the index entries of one \<^verbatim>\<open>comicId\<close> in key
  order. Each round deletes the record under the cursor and moves on; the records
  before the cursor are gone by then, so the next record is the first one left.
\<close>

function cursor_delete_all :: "'k \<Rightarrow> ('k, 'b) StoredPage list \<Rightarrow> ('k, 'b) StoredPage list" where
  "cursor_delete_all c ps =
     (case find (\<lambda>p. comicId p = c) ps of
        None \<Rightarrow> ps
      | Some p \<Rightarrow> cursor_delete_all c (store_delete page_id (page_id p) ps))"
  by pat_completeness auto
termination
proof (relation "measure (\<lambda>(c, ps). length ps)")
  show "wf (measure (\<lambda>(c, ps). length ps))" by simp
next
  fix c :: 'k and ps :: "('k, 'b) StoredPage list" and p
  assume "find (\<lambda>p. comicId p = c) ps = Some p"
  then have "p \<in> set ps"
    by (auto simp: find_Some_iff)
  then have "length (filter (\<lambda>r. page_id r \<noteq> page_id p) ps) < length ps"
    by (intro length_filter_less[of p]) auto
  then show "((c, store_delete page_id (page_id p) ps), (c, ps)) \<in> measure (\<lambda>(c, ps). length ps)"
    by (simp add: store_delete_def)
qed

definition deleteComic ::
  "idb_fault \<Rightarrow> 'k \<Rightarrow> ('k, 'b) database \<Rightarrow> (error + unit) \<times> ('k, 'b) database" where
  "deleteComic f c db =
     (if f = OpenFailed then (Inl DOMException, db)
      else if f \<noteq> NoFault then (Inl JsNull, db)
      else (Inr (),
            db\<lparr>comics := store_delete comic_id c (comics db),
               pages := cursor_delete_all c (pages db)\<rparr>))"

text \<open>
  \<^verbatim>\<open>remainingPages.forEach((page, index) => ...)\<close> of \<^verbatim>\<open>deleteComicPage\<close>: a page whose
  \<^verbatim>\<open>order\<close> differs from its position is given the position and written back.
\<close>

fun renumber ::
  "nat \<Rightarrow> ('k::linorder, 'b) StoredPage list \<Rightarrow> ('k, 'b) StoredPage list
     \<Rightarrow> ('k, 'b) StoredPage list" where
  "renumber i [] store = store"
| "renumber i (page # rest) store =
     renumber (Suc i) rest
       (if order page \<noteq> int i then store_put page_id (page\<lparr>order := int i\<rparr>) store
        else store)"

text \<open>
  The comparison \<^verbatim>\<open>comic.lastReadPage >= comic.totalPages\<close> is false when
  \<^verbatim>\<open>lastReadPage\<close> is \<^verbatim>\<open>undefined\<close>.
\<close>

definition clamp_lastReadPage :: "('k, 'b) Comic \<Rightarrow> ('k, 'b) Comic" where
  "clamp_lastReadPage comic =
     (case lastReadPage comic of
        None \<Rightarrow> comic
      | Some l \<Rightarrow>
          if l \<ge> totalPages comic
          then comic\<lparr>lastReadPage := Some (max 0 (totalPages comic - 1))\<rparr>
          else comic)"

definition deleteComicPage_tx ::
  "'k::linorder \<Rightarrow> 'k \<Rightarrow> ('k, 'b) database \<Rightarrow> ('k, 'b) database" where
  "deleteComicPage_tx pageId c db =
     (let pages1 = store_delete page_id pageId (pages db);
          remainingPages = index_getAll c pages1
      in if length remainingPages = 0
         then \<lparr>comics = store_delete comic_id c (comics db), pages = pages1\<rparr>
         else
           let sorted_pages = js_sort (\<lambda>a b. order a - order b) remainingPages;
               pages2 = renumber 0 sorted_pages pages1
           in case store_get comic_id c (comics db) of
                Some comic \<Rightarrow>
                  \<lparr>comics = store_put comic_id
                      (clamp_lastReadPage (comic\<lparr>totalPages := int (length remainingPages)\<rparr>))
                      (comics db),
                   pages = pages2\<rparr>
              | None \<Rightarrow> \<lparr>comics = comics db, pages = pages2\<rparr>)"

definition deleteComicPage ::
  "idb_fault \<Rightarrow> 'k::linorder \<Rightarrow> 'k \<Rightarrow> ('k, 'b) database
     \<Rightarrow> (error + unit) \<times> ('k, 'b) database" where
  "deleteComicPage f pageId c db =
     (if f = OpenFailed then (Inl DOMException, db)
      else if f \<noteq> NoFault then (Inl JsNull, db)
      else (Inr (), deleteComicPage_tx pageId c db))"


section \<open>The cover search (services/geminiService.ts, in src/sw.js)\<close>

text \<open>
  \<^verbatim>\<open>searchComicCovers(comics, query)\<close>; its first parameter is called \<open>allComics\<close>
  here, \<open>comics\<close> being the comics store of the database record.

  What the search takes from its surroundings is collected in a record: the configured
  key \<^verbatim>\<open>process.env.API_KEY\<close>, the string functions of the JavaScript runtime, the
  \<^verbatim>\<open>FileReader\<close>, the \<^verbatim>\<open>type\<close> of a blob, and the hosted model. The model's answer may
  depend on which of the search's callbacks asks, so \<open>generateContent\<close> takes the
  position of the comic among the comics searched.
\<close>

datatype reader_result = ReaderError | ReaderNoString | ReaderString string

datatype model_response = Rejected | Response "string option"

record request =
  inlineData :: "string option"
  mimeType :: string
  prompt :: string

record 'b runtime =
  API_KEY :: "string option"
  toLowerCase :: "string \<Rightarrow> string"
  toUpperCase :: "string \<Rightarrow> string"
  trim :: "string \<Rightarrow> string"
  readAsDataURL :: "'b \<Rightarrow> reader_result"
  blob_type :: "'b \<Rightarrow> string"
  generateContent :: "nat \<Rightarrow> request \<Rightarrow> model_response"

text \<open>\<^verbatim>\<open>s.includes(t)\<close>: \<open>t\<close> occurs in \<open>s\<close> as a contiguous piece.\<close>

definition js_includes :: "string \<Rightarrow> string \<Rightarrow> bool" where
  "js_includes s t = sublist t s"

text \<open>\<^verbatim>\<open>s.split(',')[1]\<close>: the piece between the first and the second comma, if any.\<close>

definition split_comma_second :: "string \<Rightarrow> string option" where
  "split_comma_second s =
     (case dropWhile (\<lambda>c. c \<noteq> CHR '','') s of
        [] \<Rightarrow> None
      | _ # rest \<Rightarrow> Some (takeWhile (\<lambda>c. c \<noteq> CHR '','') rest))"

definition blobToBase64 :: "'b runtime \<Rightarrow> 'b \<Rightarrow> error + string option" where
  "blobToBase64 rt b =
     (case readAsDataURL rt b of
        ReaderError \<Rightarrow> Inl DOMException
      | ReaderNoString \<Rightarrow> Inl (Error ''Failed to convert blob to base64'')
      | ReaderString s \<Rightarrow> Inr (split_comma_second s))"

definition api_key_missing :: "'b runtime \<Rightarrow> bool" where
  "api_key_missing rt = (case API_KEY rt of None \<Rightarrow> True | Some k \<Rightarrow> k = [])"

definition title_matches :: "'b runtime \<Rightarrow> string \<Rightarrow> ('k, 'b) Comic \<Rightarrow> bool" where
  "title_matches rt query comic =
     js_includes (toLowerCase rt (title comic)) (toLowerCase rt query)"

definition comicsToSearchAi ::
  "'b runtime \<Rightarrow> ('k, 'b) Comic list \<Rightarrow> string \<Rightarrow> ('k, 'b) Comic list" where
  "comicsToSearchAi rt allComics query =
     (let titleMatches = filter (title_matches rt query) allComics;
          titleMatchIds = set (map comic_id titleMatches)
      in filter (\<lambda>comic. comic_id comic \<notin> titleMatchIds) allComics)"

definition cover_request :: "'b runtime \<Rightarrow> string \<Rightarrow> 'b \<Rightarrow> string option \<Rightarrow> request" where
  "cover_request rt query b base64Data =
     \<lparr>inlineData = base64Data,
      mimeType = (if blob_type rt b = [] then ''image/png'' else blob_type rt b),
      prompt = ''Does the cover of this comic book match the description '' @ [CHR 0x22]
        @ query @ [CHR 0x22]
        @ ''? The cover might show characters, scenes, or represent the mood. Answer with only ''
        @ [CHR 0x22] @ ''YES'' @ [CHR 0x22] @ '' or '' @ [CHR 0x22] @ ''NO'' @ [CHR 0x22] @ ''.''\<rparr>"

text \<open>\<^verbatim>\<open>response.text?.trim().toUpperCase() === 'YES'\<close>; a rejected call is caught.\<close>

definition answered_yes :: "'b runtime \<Rightarrow> model_response \<Rightarrow> bool" where
  "answered_yes rt resp =
     (case resp of
        Rejected \<Rightarrow> False
      | Response None \<Rightarrow> False
      | Response (Some t) \<Rightarrow> toUpperCase rt (trim rt t) = ''YES'')"

text \<open>
  One call of the model, as the search observes it: the position and the comic it was
  made for, what was sent and what came back.
\<close>

record ('k, 'b) inference_call =
  call_index :: nat
  call_comic :: "('k, 'b) Comic"
  call_request :: request
  call_response :: model_response

text \<open>
  The callback given to \<^verbatim>\<open>comicsToSearchAi.map\<close>, for the comic at position \<open>i\<close>: its
  value (\<open>None\<close> is \<^verbatim>\<open>null\<close>) and the calls of the model it made.
\<close>

definition ai_match ::
  "'b runtime \<Rightarrow> string \<Rightarrow> nat \<Rightarrow> ('k, 'b) Comic
     \<Rightarrow> ('k, 'b) Comic option \<times> ('k, 'b) inference_call list" where
  "ai_match rt query i comic =
     (case coverImageBlob comic of
        None \<Rightarrow> (None, [])
      | Some b \<Rightarrow>
          (case blobToBase64 rt b of
             Inl e \<Rightarrow> (None, [])
           | Inr base64Data \<Rightarrow>
               let req = cover_request rt query b base64Data;
                   resp = generateContent rt i req
               in (if answered_yes rt resp then Some comic else None,
                   [\<lparr>call_index = i, call_comic = comic, call_request = req,
                     call_response = resp\<rparr>])))"

definition searchComicCovers ::
  "'b runtime \<Rightarrow> ('k, 'b) Comic list \<Rightarrow> string
     \<Rightarrow> (error + ('k, 'b) Comic list) \<times> ('k, 'b) inference_call list" where
  "searchComicCovers rt allComics query =
     (if api_key_missing rt then (Inl (Error ''API Key is missing.''), [])
      else
        let titleMatches = filter (title_matches rt query) allComics;
            toSearch = comicsToSearchAi rt allComics query;
            settled = map (\<lambda>(i, comic). ai_match rt query i comic) (enumerate 0 toSearch);
            aiMatches = concat (map (\<lambda>(r, calls). case r of None \<Rightarrow> [] | Some c \<Rightarrow> [c]) settled)
        in (Inr (titleMatches @ aiMatches), concat (map snd settled)))"


subsection \<open>The callbacks as the event loop runs them\<close>

text \<open>
  \<^verbatim>\<open>comicsToSearchAi.map(async (comic) => ...)\<close> calls the callback for every comic in
  turn, and each call runs until its first \<^verbatim>\<open>await\<close>: a comic without cover settles
  with \<^verbatim>\<open>null\<close> at once, any other waits for \<^verbatim>\<open>blobToBase64\<close>. \<^verbatim>\<open>Promise.all\<close> then
  waits for all of them. From there on the event loop resumes one callback at a time,
  whichever has its awaited promise settled: after the cover is encoded the callback
  calls \<^verbatim>\<open>generateContent\<close> and waits for the model; after the model has answered the
  callback settles. A rejection is caught and settles the callback with \<^verbatim>\<open>null\<close>.
\<close>

datatype ('k, 'b) task =
  AwaitingBase64 "('k, 'b) Comic" 'b
  | InFlight "('k, 'b) Comic" request
  | Settled "('k, 'b) Comic option"

definition start_task :: "('k, 'b) Comic \<Rightarrow> ('k, 'b) task" where
  "start_task comic =
     (case coverImageBlob comic of None \<Rightarrow> Settled None | Some b \<Rightarrow> AwaitingBase64 comic b)"

definition search_tasks ::
  "'b runtime \<Rightarrow> ('k, 'b) Comic list \<Rightarrow> string \<Rightarrow> ('k, 'b) task list" where
  "search_tasks rt allComics query = map start_task (comicsToSearchAi rt allComics query)"

inductive turn :: "'b runtime \<Rightarrow> string \<Rightarrow> ('k, 'b) task list \<Rightarrow> ('k, 'b) task list \<Rightarrow> bool"
  for rt :: "'b runtime" and query :: string
where
  base64_resolved:
    "i < length ts \<Longrightarrow> ts ! i = AwaitingBase64 comic b \<Longrightarrow> blobToBase64 rt b = Inr d \<Longrightarrow>
     turn rt query ts (ts[i := InFlight comic (cover_request rt query b d)])"
| base64_rejected:
    "i < length ts \<Longrightarrow> ts ! i = AwaitingBase64 comic b \<Longrightarrow> blobToBase64 rt b = Inl e \<Longrightarrow>
     turn rt query ts (ts[i := Settled None])"
| response_arrived:
    "i < length ts \<Longrightarrow> ts ! i = InFlight comic req \<Longrightarrow>
     turn rt query ts
       (ts[i := Settled (if answered_yes rt (generateContent rt i req) then Some comic else None)])"

code_pred turn .








section \<open>A small library to run the operations on\<close>

text \<open>
  Two comics with numbers as identifiers and strings as blobs. The first has three
  pages whose \<open>order\<close> disagrees with the key order of the store; the second has one.
\<close>

definition moon_tales :: "(nat, string) Comic" where
  "moon_tales = \<lparr>comic_id = 1, title = ''Moon Tales'', coverImageBlob = Some ''moon-cover'',
     createdAt = 100, totalPages = 3, lastReadPage = Some 2\<rparr>"

definition star_dust :: "(nat, string) Comic" where
  "star_dust = \<lparr>comic_id = 2, title = ''Star Dust'', coverImageBlob = Some ''star-cover'',
     createdAt = 200, totalPages = 1, lastReadPage = None\<rparr>"

text \<open>A third comic for the search: it has no cover.\<close>

definition plain_book :: "(nat, string) Comic" where
  "plain_book = \<lparr>comic_id = 3, title = ''Plain'', coverImageBlob = None,
     createdAt = 300, totalPages = 0, lastReadPage = None\<rparr>"

definition page10 :: "(nat, string) StoredPage" where
  "page10 = \<lparr>page_id = 10, blob = ''m-c'', order = 2, comicId = 1\<rparr>"

definition page11 :: "(nat, string) StoredPage" where
  "page11 = \<lparr>page_id = 11, blob = ''m-a'', order = 0, comicId = 1\<rparr>"

definition page12 :: "(nat, string) StoredPage" where
  "page12 = \<lparr>page_id = 12, blob = ''m-b'', order = 1, comicId = 1\<rparr>"

definition page20 :: "(nat, string) StoredPage" where
  "page20 = \<lparr>page_id = 20, blob = ''s-a'', order = 0, comicId = 2\<rparr>"

definition library_db :: "(nat, string) database" where
  "library_db = \<lparr>comics = [moon_tales, star_dust], pages = [page10, page11, page12, page20]\<rparr>"

lemmas library_defs =
  library_db_def moon_tales_def star_dust_def page10_def page11_def page12_def page20_def


subsection \<open>A runtime for the small library\<close>

definition ascii_lower :: "char \<Rightarrow> char" where
  "ascii_lower c =
     (case map_of (zip ''ABCDEFGHIJKLMNOPQRSTUVWXYZ'' ''abcdefghijklmnopqrstuvwxyz'') c of
        None \<Rightarrow> c | Some d \<Rightarrow> d)"

definition ascii_upper :: "char \<Rightarrow> char" where
  "ascii_upper c =
     (case map_of (zip ''abcdefghijklmnopqrstuvwxyz'' ''ABCDEFGHIJKLMNOPQRSTUVWXYZ'') c of
        None \<Rightarrow> c | Some d \<Rightarrow> d)"

definition ascii_trim :: "string \<Rightarrow> string" where
  "ascii_trim s =
     rev (dropWhile (\<lambda>c. c = CHR '' '') (rev (dropWhile (\<lambda>c. c = CHR '' '') s)))"

text \<open>The model of this runtime says yes to the cover of Star Dust and no to any other.\<close>

definition library_runtime :: "string runtime" where
  "library_runtime =
     \<lparr>API_KEY = Some ''secret'',
      toLowerCase = map ascii_lower,
      toUpperCase = map ascii_upper,
      trim = ascii_trim,
      readAsDataURL = (\<lambda>b. ReaderString (''data:image/png;base64,'' @ b)),
      blob_type = (\<lambda>b. ''image/png''),
      generateContent = (\<lambda>i req. if inlineData req = Some ''star-cover''
                                    then Response (Some '' yes '') else Response (Some ''NO''))\<rparr>"


section \<open>Properties of the stores and of sort\<close>

lemma js_insert_insort_key:
  "js_insert (\<lambda>a b. f a - f b) x xs = insort_key f x xs"
  by (induction xs) auto

lemma js_sort_sort_key:
  "js_sort (\<lambda>a b. f a - f b) xs = sort_key f xs"
  by (induction xs) (auto simp: js_sort_def js_insert_insort_key)

lemma js_sort_desc:
  "js_sort (\<lambda>a b. f b - f a) xs = sort_key (\<lambda>x. - f x) xs"
  using js_sort_sort_key[of "\<lambda>x. - f x" xs] by simp


lemma store_get_delete: "store_get key k (store_delete key k rs) = None"
  by (simp add: store_get_def store_delete_def find_None_iff)

lemma store_get_put_same: "store_get key (key r) (store_put key r rs) = Some r"
  by (induction rs) (auto simp: store_get_def)

lemma store_get_put_other:
  "k \<noteq> key r \<Longrightarrow> store_get key k (store_put key r rs) = store_get key k rs"
  by (induction rs) (auto simp: store_get_def)

lemma wf_store_delete: "wf_store key rs \<Longrightarrow> wf_store key (store_delete key k rs)"
  unfolding wf_store_def store_delete_def
  by (simp add: sorted_wrt_map sorted_wrt_filter)

lemma wf_store_distinct: "wf_store key rs \<Longrightarrow> distinct (map key rs)"
  by (simp add: wf_store_def strict_sorted_iff)

lemma wf_store_inj: "wf_store key rs \<Longrightarrow> inj_on key (set rs)"
  using wf_store_distinct[of key rs] by (simp add: distinct_map)

text \<open>Writing a record whose key the store already holds replaces that record in place.\<close>

lemma store_put_existing:
  "wf_store key rs \<Longrightarrow> x \<in> set rs \<Longrightarrow> key x = key r \<Longrightarrow>
   store_put key r rs = map (\<lambda>y. if key y = key r then r else y) rs"
proof (induction rs)
  case Nil
  then show ?case by simp
next
  case (Cons a rs)
  show ?case
  proof (cases "key a = key r")
    case True
    have "\<forall>y\<in>set rs. key a < key y"
      using Cons.prems(1) by (simp add: wf_store_def)
    then have "map (\<lambda>y. if key y = key r then r else y) rs = rs"
      using True by (intro map_idI) auto
    then show ?thesis using True by simp
  next
    case False
    then have xin: "x \<in> set rs" using Cons.prems by auto
    have "key a < key x"
      using Cons.prems(1) xin by (simp add: wf_store_def)
    then have "\<not> key r < key a" using Cons.prems(3) by simp
    moreover have "wf_store key rs" using Cons.prems(1) by (simp add: wf_store_def)
    ultimately show ?thesis using False Cons.IH xin Cons.prems(3) by auto
  qed
qed

text \<open>The cursor loop of \<open>deleteComic\<close> removes the pages of the comic and no other.\<close>

lemma cursor_delete_all_filter:
  "distinct (map page_id ps) \<Longrightarrow>
   cursor_delete_all c ps = filter (\<lambda>p. comicId p \<noteq> c) ps"
proof (induction c ps rule: cursor_delete_all.induct)
  case (1 c ps)
  show ?case
  proof (cases "find (\<lambda>p. comicId p = c) ps")
    case None
    then have "\<forall>p\<in>set ps. comicId p \<noteq> c"
      by (simp add: find_None_iff)
    then have "filter (\<lambda>p. comicId p \<noteq> c) ps = ps" by simp
    then show ?thesis using None by (simp add: cursor_delete_all.simps[of c ps])
  next
    case (Some p)
    let ?ps' = "store_delete page_id (page_id p) ps"
    have p: "p \<in> set ps" "comicId p = c"
      using Some by (auto simp: find_Some_iff)
    have d': "distinct (map page_id ?ps')"
      using "1.prems" by (simp add: store_delete_def distinct_map_filter)
    have inj: "inj_on page_id (set ps)"
      using "1.prems" by (simp add: distinct_map)
    have "filter (\<lambda>q. comicId q \<noteq> c) ?ps' = filter (\<lambda>q. comicId q \<noteq> c) ps"
      unfolding store_delete_def filter_filter
    proof (rule filter_cong[OF refl])
      fix x assume "x \<in> set ps"
      then show "(page_id x \<noteq> page_id p \<and> comicId x \<noteq> c) = (comicId x \<noteq> c)"
        using p inj by (auto dest: inj_onD)
    qed
    moreover have "cursor_delete_all c ps = cursor_delete_all c ?ps'"
      using Some by (simp add: cursor_delete_all.simps[of c ps])
    ultimately show ?thesis using "1.IH"[OF Some d'] by simp
  qed
qed

lemma wf_library_db: "wf_db library_db"
  by (simp add: wf_db_def wf_store_def library_defs)


subsection \<open>Renumbering the pages of a comic\<close>

lemma renumber_step:
  assumes wf: "wf_store page_id s" and p: "p \<in> set s"
  shows "(if order p \<noteq> int i then store_put page_id (p\<lparr>order := int i\<rparr>) s else s)
         = map (\<lambda>x. if page_id x = page_id p then x\<lparr>order := int i\<rparr> else x) s"
proof -
  have same: "\<And>y. y \<in> set s \<Longrightarrow> page_id y = page_id p \<Longrightarrow> y = p"
    using wf_store_inj[OF wf] p by (auto dest: inj_onD)
  show ?thesis
  proof (cases "order p = int i")
    case True
    have "map (\<lambda>x. if page_id x = page_id p then x\<lparr>order := int i\<rparr> else x) s = s"
    proof (rule map_idI)
      fix x assume "x \<in> set s"
      then show "(if page_id x = page_id p then x\<lparr>order := int i\<rparr> else x) = x"
        using same[of x] True by auto
    qed
    then show ?thesis using True by simp
  next
    case False
    have "store_put page_id (p\<lparr>order := int i\<rparr>) s
          = map (\<lambda>y. if page_id y = page_id (p\<lparr>order := int i\<rparr>) then p\<lparr>order := int i\<rparr> else y) s"
      by (rule store_put_existing[OF wf p]) simp
    also have "\<dots> = map (\<lambda>x. if page_id x = page_id p then x\<lparr>order := int i\<rparr> else x) s"
      by (rule map_cong[OF refl]) (use same in auto)
    finally show ?thesis using False by simp
  qed
qed

lemma renumber_map:
  "wf_store page_id s \<Longrightarrow> set ps \<subseteq> set s \<Longrightarrow> distinct (map page_id ps) \<Longrightarrow>
   renumber i ps s =
     map (\<lambda>x. case map_of (zip (map page_id ps) [i..<i + length ps]) (page_id x) of
                 None \<Rightarrow> x | Some j \<Rightarrow> x\<lparr>order := int j\<rparr>) s"
proof (induction ps arbitrary: i s)
  case Nil
  then show ?case by simp
next
  case (Cons p rest)
  let ?h = "\<lambda>x. if page_id x = page_id p then x\<lparr>order := int i\<rparr> else x"
  let ?s1 = "map ?h s"
  let ?g' = "\<lambda>x. case map_of (zip (map page_id rest) [Suc i..<Suc i + length rest]) (page_id x) of
                 None \<Rightarrow> x | Some j \<Rightarrow> x\<lparr>order := int j\<rparr>"
  have p: "p \<in> set s" using Cons.prems(2) by simp
  have step: "(if order p \<noteq> int i then store_put page_id (p\<lparr>order := int i\<rparr>) s else s) = ?s1"
    by (rule renumber_step[OF Cons.prems(1) p])
  have ids: "map page_id ?s1 = map page_id s" by (simp add: comp_def)
  have wf1: "wf_store page_id ?s1"
    using Cons.prems(1) unfolding wf_store_def ids .
  have sub1: "set rest \<subseteq> set ?s1"
  proof
    fix r assume r: "r \<in> set rest"
    then have "r \<in> set s" using Cons.prems(2) by auto
    moreover have "page_id p \<notin> page_id ` set rest" using Cons.prems(3) by simp
    then have "page_id r \<noteq> page_id p" using r by (metis imageI)
    ultimately have "?h r \<in> ?h ` set s" "?h r = r" by auto
    then show "r \<in> set ?s1" by simp
  qed
  have d1: "distinct (map page_id rest)" using Cons.prems(3) by simp
  have notin: "map_of (zip (map page_id rest) [Suc i..<Suc i + length rest]) (page_id p) = None"
    using Cons.prems(3) by (auto simp: map_of_eq_None_iff dest: set_zip_leftD)
  have upt: "[i..<i + length (p # rest)] = i # [Suc i..<Suc i + length rest]"
  proof -
    have "i + length (p # rest) = Suc i + length rest" by simp
    moreover have "i < Suc i + length rest" by simp
    ultimately show ?thesis by (simp only: upt_conv_Cons)
  qed
  have "renumber i (p # rest) s = renumber (Suc i) rest ?s1"
    using step by simp
  also have "\<dots> = map ?g' ?s1"
    by (rule Cons.IH[OF wf1 sub1 d1])
  also have "\<dots> = map (\<lambda>x. case map_of (zip (map page_id (p # rest)) [i..<i + length (p # rest)]) (page_id x) of
                 None \<Rightarrow> x | Some j \<Rightarrow> x\<lparr>order := int j\<rparr>) s"
    unfolding upt map_map using notin by (intro map_cong[OF refl]) auto
  finally show ?case .
qed


lemma renumber_table_zip:
  assumes "distinct (map page_id S)"
  shows "map (\<lambda>x. case map_of (zip (map page_id S) [i..<i + length S]) (page_id x) of
                 None \<Rightarrow> x | Some j \<Rightarrow> x\<lparr>order := int j\<rparr>) S
         = map (\<lambda>(p, j). p\<lparr>order := int j\<rparr>) (zip S [i..<i + length S])"
proof (rule nth_equalityI)
  show "length (map (\<lambda>x. case map_of (zip (map page_id S) [i..<i + length S]) (page_id x) of
                 None \<Rightarrow> x | Some j \<Rightarrow> x\<lparr>order := int j\<rparr>) S)
        = length (map (\<lambda>(p, j). p\<lparr>order := int j\<rparr>) (zip S [i..<i + length S]))"
    by simp
next
  fix k
  assume "k < length (map (\<lambda>x. case map_of (zip (map page_id S) [i..<i + length S]) (page_id x) of
                 None \<Rightarrow> x | Some j \<Rightarrow> x\<lparr>order := int j\<rparr>) S)"
  then have k: "k < length S" by simp
  have "map_of (zip (map page_id S) [i..<i + length S]) (map page_id S ! k)
        = Some ([i..<i + length S] ! k)"
    using assms k by (intro map_of_zip_nth) auto
  then have "map_of (zip (map page_id S) [i..<i + length S]) (page_id (S ! k)) = Some (i + k)"
    using k by simp
  then show "map (\<lambda>x. case map_of (zip (map page_id S) [i..<i + length S]) (page_id x) of
                 None \<Rightarrow> x | Some j \<Rightarrow> x\<lparr>order := int j\<rparr>) S ! k
        = map (\<lambda>(p, j). p\<lparr>order := int j\<rparr>) (zip S [i..<i + length S]) ! k"
    using k by simp
qed

lemma sort_key_unique:
  assumes m: "mset ys = mset xs" and s: "sorted (map f ys)" and d: "distinct (map f ys)"
  shows "sort_key f xs = ys"
proof (rule map_sorted_distinct_set_unique[of f])
  have mm: "mset (map f (sort_key f xs)) = mset (map f ys)"
    using m by simp
  show "distinct (map f (sort_key f xs))"
    using mset_eq_imp_distinct_iff[OF mm] d by simp
  show "set (sort_key f xs) = set ys"
    using mset_eq_setD[OF m] by simp
  then show "inj_on f (set (sort_key f xs) \<union> set ys)"
    using d by (simp add: distinct_map)
  show "sorted (map f (sort_key f xs))" by (rule sorted_sort_key)
  show "sorted (map f ys)" by (rule s)
  show "distinct (map f ys)" by (rule d)
qed

lemma index_getAll_map:
  "(\<And>x. comicId (g x) = comicId x) \<Longrightarrow> index_getAll c (map g ps) = map g (index_getAll c ps)"
  by (induction ps) (auto simp: index_getAll_def)

lemma order_of_numbered:
  "length xs = length js \<Longrightarrow>
   map order (map (\<lambda>(p, j). p\<lparr>order := int j\<rparr>) (zip xs js)) = map int js"
  by (induction xs js rule: list_induct2) auto

lemma sorted_map_int_upt: "sorted (map int [0..<n])"
  by (simp add: sorted_map)

lemma distinct_map_int_upt: "distinct (map int [0..<n])"
  by (simp add: distinct_map)

lemma deleteComicPage_tx_pages:
  "pages (deleteComicPage_tx pageId c db) =
     (if index_getAll c (store_delete page_id pageId (pages db)) = []
      then store_delete page_id pageId (pages db)
      else renumber 0 (sort_key order (index_getAll c (store_delete page_id pageId (pages db))))
             (store_delete page_id pageId (pages db)))"
  by (simp add: deleteComicPage_tx_def Let_def js_sort_sort_key split: option.splits)

lemma index_getAll_renumbered:
  fixes pages1 :: "('k::linorder, 'b) StoredPage list" and c :: 'k
  assumes wf: "wf_store page_id pages1"
  defines "R \<equiv> index_getAll c pages1"
  defines "S \<equiv> sort_key order R"
  defines "g \<equiv> \<lambda>x. case map_of (zip (map page_id S) [0..<0 + length S]) (page_id x) of
                 None \<Rightarrow> x | Some j \<Rightarrow> x\<lparr>order := int j\<rparr>"
  shows "index_getAll c (renumber 0 S pages1) = map g R"
    and "distinct (map page_id S)"
proof -
  have sub: "set S \<subseteq> set pages1"
    by (auto simp: S_def R_def index_getAll_def)
  have "distinct (map page_id R)"
    using wf_store_distinct[OF wf] by (simp add: R_def index_getAll_def distinct_map_filter)
  moreover have "mset (map page_id S) = mset (map page_id R)"
    by (simp add: S_def)
  ultimately show d: "distinct (map page_id S)"
    using mset_eq_imp_distinct_iff by blast
  have r: "renumber 0 S pages1 = map g pages1"
    unfolding g_def by (rule renumber_map[OF wf sub d])
  have cg: "\<And>x. comicId (g x) = comicId x"
    by (simp add: g_def split: option.splits)
  show "index_getAll c (renumber 0 S pages1) = map g R"
    unfolding r R_def by (rule index_getAll_map[OF cg])
qed

lemma deleteComicPage_tx_remaining:
  fixes db :: "('k::linorder, 'b) database"
  assumes wf: "wf_store page_id (pages db)"
  shows "sort_key order (index_getAll c (pages (deleteComicPage_tx pageId c db)))
         = map (\<lambda>(p, i). p\<lparr>order := int i\<rparr>)
             (zip (sort_key order (index_getAll c (store_delete page_id pageId (pages db))))
                  [0..<length (index_getAll c (store_delete page_id pageId (pages db)))])"
    and "length (index_getAll c (pages (deleteComicPage_tx pageId c db)))
         = length (index_getAll c (store_delete page_id pageId (pages db)))"
proof -
  define pages1 where "pages1 = store_delete page_id pageId (pages db)"
  define R where "R = index_getAll c pages1"
  define S where "S = sort_key order R"
  define g where "g = (\<lambda>x::('k, 'b) StoredPage.
      case map_of (zip (map page_id S) [0..<0 + length S]) (page_id x) of
        None \<Rightarrow> x | Some j \<Rightarrow> x\<lparr>order := int j\<rparr>)"
  define S' where "S' = map (\<lambda>(p, i). p\<lparr>order := int i\<rparr>) (zip S [0..<length R])"
  define R' where "R' = index_getAll c (pages (deleteComicPage_tx pageId c db))"
  have wf1: "wf_store page_id pages1"
    unfolding pages1_def by (rule wf_store_delete[OF wf])
  have len: "length S = length R" by (simp add: S_def)
  have pages': "pages (deleteComicPage_tx pageId c db)
                = (if R = [] then pages1 else renumber 0 S pages1)"
    unfolding R_def S_def pages1_def by (rule deleteComicPage_tx_pages)
  have R': "R' = map g R"
  proof (cases "R = []")
    case True
    then show ?thesis by (simp add: R'_def pages' R_def)
  next
    case False
    have "index_getAll c (renumber 0 S pages1) = map g R"
      unfolding g_def S_def R_def by (rule index_getAll_renumbered(1)[OF wf1])
    then show ?thesis using False by (simp add: R'_def pages')
  qed
  have dS: "distinct (map page_id S)"
    unfolding S_def R_def by (rule index_getAll_renumbered(2)[OF wf1])
  have gS: "map g S = S'"
    unfolding g_def S'_def len[symmetric]
    using renumber_table_zip[OF dS, of 0] by simp
  have "mset S' = image_mset g (mset S)"
    unfolding gS[symmetric] by simp
  also have "mset S = mset R" by (simp add: S_def)
  also have "image_mset g (mset R) = mset R'" by (simp add: R')
  finally have m: "mset S' = mset R'" .
  have o: "map order S' = map int [0..<length R]"
    unfolding S'_def by (rule order_of_numbered) (simp add: len)
  have "sorted (map order S')" "distinct (map order S')"
    unfolding o by (rule sorted_map_int_upt, rule distinct_map_int_upt)
  then have "sort_key order R' = S'"
    using m by (intro sort_key_unique)
  then show "sort_key order (index_getAll c (pages (deleteComicPage_tx pageId c db)))
         = map (\<lambda>(p, i). p\<lparr>order := int i\<rparr>)
             (zip (sort_key order (index_getAll c (store_delete page_id pageId (pages db))))
                  [0..<length (index_getAll c (store_delete page_id pageId (pages db)))])"
    unfolding R'_def S'_def S_def R_def pages1_def .
  show "length (index_getAll c (pages (deleteComicPage_tx pageId c db)))
         = length (index_getAll c (store_delete page_id pageId (pages db)))"
    using R' unfolding R'_def R_def pages1_def by simp
qed


subsection \<open>The comic record after a page is deleted\<close>

lemma store_get_key: "store_get key k rs = Some r \<Longrightarrow> key r = k"
  by (auto simp: store_get_def find_Some_iff)

lemma comic_id_clamp: "comic_id (clamp_lastReadPage comic) = comic_id comic"
  by (simp add: clamp_lastReadPage_def split: option.splits)

lemma deleteComicPage_tx_survivor:
  fixes db :: "('k::linorder, 'b) database"
  assumes "store_get comic_id c (comics (deleteComicPage_tx pageId c db)) = Some comic'"
  shows "index_getAll c (store_delete page_id pageId (pages db)) \<noteq> []
       \<and> (\<exists>comic. store_get comic_id c (comics db) = Some comic
            \<and> comic' = clamp_lastReadPage (comic\<lparr>totalPages :=
                 int (length (index_getAll c (store_delete page_id pageId (pages db))))\<rparr>))"
proof (cases "index_getAll c (store_delete page_id pageId (pages db)) = []")
  case True
  then have "comics (deleteComicPage_tx pageId c db) = store_delete comic_id c (comics db)"
    by (simp add: deleteComicPage_tx_def Let_def)
  then show ?thesis using assms by (simp add: store_get_delete)
next
  case False
  show ?thesis
  proof (cases "store_get comic_id c (comics db)")
    case None
    then have "comics (deleteComicPage_tx pageId c db) = comics db"
      using False by (simp add: deleteComicPage_tx_def Let_def)
    then show ?thesis using assms None by simp
  next
    case (Some comic)
    let ?new = "clamp_lastReadPage (comic\<lparr>totalPages :=
                 int (length (index_getAll c (store_delete page_id pageId (pages db))))\<rparr>)"
    have "comics (deleteComicPage_tx pageId c db) = store_put comic_id ?new (comics db)"
      using False Some by (simp add: deleteComicPage_tx_def Let_def)
    moreover have "comic_id ?new = c"
      using store_get_key[OF Some] by (simp add: comic_id_clamp)
    ultimately have "store_get comic_id c (comics (deleteComicPage_tx pageId c db)) = Some ?new"
      using store_get_put_same[of comic_id ?new "comics db"] by simp
    then show ?thesis using assms Some False by simp
  qed
qed


subsection \<open>The operations on the small library\<close>

lemma deleteComicPage_library_11:
  "deleteComicPage NoFault 11 1 library_db =
     (Inr (),
      \<lparr>comics = [moon_tales\<lparr>totalPages := 2, lastReadPage := Some 1\<rparr>, star_dust],
       pages = [page10\<lparr>order := 1\<rparr>, page12\<lparr>order := 0\<rparr>, page20]\<rparr>)"
  by (simp add: deleteComicPage_def deleteComicPage_tx_def Let_def store_delete_def
        index_getAll_def js_sort_def store_get_def clamp_lastReadPage_def library_defs)

lemma deleteComicPage_library_20:
  "deleteComicPage NoFault 20 2 library_db =
     (Inr (), \<lparr>comics = [moon_tales], pages = [page10, page11, page12]\<rparr>)"
  by (simp add: deleteComicPage_def deleteComicPage_tx_def Let_def store_delete_def
        index_getAll_def js_sort_def store_get_def clamp_lastReadPage_def library_defs)

lemma wf_library_pages: "wf_store page_id (pages library_db)"
  using wf_library_db by (simp add: wf_db_def)


section \<open>Properties of the cover search\<close>

lemma ai_match_calls_comic:
  "cl \<in> set (snd (ai_match rt query i comic)) \<Longrightarrow>
   call_comic cl = comic \<and> call_index cl = i
   \<and> call_response cl = generateContent rt i (call_request cl)"
  by (auto simp: ai_match_def Let_def split: option.splits sum.splits)

lemma ai_match_result:
  "(case fst (ai_match rt query i comic) of None \<Rightarrow> [] | Some c \<Rightarrow> [c])
   = map call_comic
       (filter (\<lambda>cl. answered_yes rt (call_response cl)) (snd (ai_match rt query i comic)))"
  by (auto simp: ai_match_def Let_def split: option.splits sum.splits)

lemma settled_matches:
  "concat (map (\<lambda>(r, calls). case r of None \<Rightarrow> [] | Some c \<Rightarrow> [c])
             (map (\<lambda>(i, comic). ai_match rt query i comic) xs))
   = map call_comic
       (filter (\<lambda>cl. answered_yes rt (call_response cl))
          (concat (map snd (map (\<lambda>(i, comic). ai_match rt query i comic) xs))))"
proof (induction xs)
  case Nil
  then show ?case by simp
next
  case (Cons x xs)
  obtain i comic where x: "x = (i, comic)" by (cases x)
  have "(case ai_match rt query i comic of (r, calls) \<Rightarrow> case r of None \<Rightarrow> [] | Some c \<Rightarrow> [c])
        = (case fst (ai_match rt query i comic) of None \<Rightarrow> [] | Some c \<Rightarrow> [c])"
    by (simp add: case_prod_beta)
  then show ?case
    using Cons.IH ai_match_result[of rt query i comic] by (simp add: x)
qed

lemma settled_calls_comic:
  "cl \<in> set (concat (map snd (map (\<lambda>(i, comic). ai_match rt query i comic) xs))) \<Longrightarrow>
   call_comic cl \<in> snd ` set xs
   \<and> call_response cl = generateContent rt (call_index cl) (call_request cl)"
proof (induction xs)
  case Nil
  then show ?case by simp
next
  case (Cons x xs)
  obtain i comic where x: "x = (i, comic)" by (cases x)
  from Cons.prems have "cl \<in> set (snd (ai_match rt query i comic))
      \<or> cl \<in> set (concat (map snd (map (\<lambda>(i, comic). ai_match rt query i comic) xs)))"
    by (simp add: x)
  then show ?case
  proof
    assume "cl \<in> set (snd (ai_match rt query i comic))"
    from ai_match_calls_comic[OF this] show ?thesis by (simp add: x)
  next
    assume "cl \<in> set (concat (map snd (map (\<lambda>(i, comic). ai_match rt query i comic) xs)))"
    from Cons.IH[OF this] show ?thesis by auto
  qed
qed

lemma comicsToSearchAi_unmatched:
  "c \<in> set (comicsToSearchAi rt allComics query) \<Longrightarrow>
   c \<in> set allComics \<and> \<not> title_matches rt query c"
  by (auto simp: comicsToSearchAi_def Let_def)

lemma title_matches_sublist:
  "title_matches rt query c = sublist (toLowerCase rt query) (toLowerCase rt (title c))"
  by (simp add: title_matches_def js_includes_def)

lemma answered_yes_text:
  "answered_yes rt resp
   = (\<exists>t. resp = Response (Some t) \<and> toUpperCase rt (trim rt t) = ''YES'')"
  by (cases resp) (auto simp: answered_yes_def split: option.splits)

lemma api_key_missing_iff:
  "api_key_missing rt = (API_KEY rt = None \<or> API_KEY rt = Some [])"
  by (simp add: api_key_missing_def split: option.splits)

lemma ai_match_called:
  "map call_comic (snd (ai_match rt query i comic))
   = (if \<exists>b s. coverImageBlob comic = Some b \<and> readAsDataURL rt b = ReaderString s
      then [comic] else [])"
  by (auto simp: ai_match_def blobToBase64_def Let_def
           split: option.splits sum.splits reader_result.splits)

lemma settled_called:
  "map call_comic (concat (map snd (map (\<lambda>(i, comic). ai_match rt query i comic) xs)))
   = filter (\<lambda>c. \<exists>b s. coverImageBlob c = Some b \<and> readAsDataURL rt b = ReaderString s)
       (map snd xs)"
proof (induction xs)
  case Nil
  then show ?case by simp
next
  case (Cons x xs)
  obtain i comic where x: "x = (i, comic)" by (cases x)
  show ?case
    using Cons.IH ai_match_called[of rt query i comic] by (simp add: x)
qed

lemma comicsToSearchAi_ids:
  "comicsToSearchAi rt allComics query
   = filter (\<lambda>c. comic_id c \<notin> comic_id `
               {m \<in> set allComics. sublist (toLowerCase rt query) (toLowerCase rt (title m))})
       allComics"
  by (simp add: comicsToSearchAi_def Let_def title_matches_sublist)

lemma searchComicCovers_run:
  assumes "\<not> api_key_missing rt"
  shows "searchComicCovers rt allComics query =
     (Inr (filter (title_matches rt query) allComics
           @ map call_comic (filter (\<lambda>cl. answered_yes rt (call_response cl))
               (concat (map snd (map (\<lambda>(i, comic). ai_match rt query i comic)
                  (enumerate 0 (comicsToSearchAi rt allComics query))))))),
      concat (map snd (map (\<lambda>(i, comic). ai_match rt query i comic)
                  (enumerate 0 (comicsToSearchAi rt allComics query)))))"
  using assms settled_matches[of rt query "enumerate 0 (comicsToSearchAi rt allComics query)"]
  by (simp add: searchComicCovers_def Let_def)

lemma library_titles_zzz:
  "\<not> sublist (toLowerCase library_runtime ''zzz'') (toLowerCase library_runtime (title moon_tales))"
  "\<not> sublist (toLowerCase library_runtime ''zzz'') (toLowerCase library_runtime (title star_dust))"
  "\<not> sublist (toLowerCase library_runtime ''zzz'') (toLowerCase library_runtime (title plain_book))"
  by (simp_all add: library_runtime_def ascii_lower_def moon_tales_def star_dust_def
        plain_book_def sublist_code prefix_code)

lemma library_titles_moon:
  "sublist (toLowerCase library_runtime ''moon'') (toLowerCase library_runtime (title moon_tales))"
  "\<not> sublist (toLowerCase library_runtime ''moon'') (toLowerCase library_runtime (title star_dust))"
  "\<not> sublist (toLowerCase library_runtime ''moon'') (toLowerCase library_runtime (title plain_book))"
  by (simp_all add: library_runtime_def ascii_lower_def moon_tales_def star_dust_def
        plain_book_def sublist_code prefix_code)

lemma library_answers:
  "toUpperCase library_runtime (trim library_runtime '' yes '') = ''YES''"
  "toUpperCase library_runtime (trim library_runtime ''NO'') \<noteq> ''YES''"
  by (simp_all add: library_runtime_def ascii_trim_def ascii_upper_def)

lemma library_ai_match:
  "ai_match library_runtime q i moon_tales =
     (None, [\<lparr>call_index = i, call_comic = moon_tales,
              call_request = cover_request library_runtime q ''moon-cover'' (Some ''moon-cover''),
              call_response = Response (Some ''NO'')\<rparr>])"
  "ai_match library_runtime q i star_dust =
     (Some star_dust, [\<lparr>call_index = i, call_comic = star_dust,
              call_request = cover_request library_runtime q ''star-cover'' (Some ''star-cover''),
              call_response = Response (Some '' yes '')\<rparr>])"
  "ai_match library_runtime q i plain_book = (None, [])"
proof -
  have b: "blobToBase64 library_runtime ''moon-cover'' = Inr (Some ''moon-cover'')"
    "blobToBase64 library_runtime ''star-cover'' = Inr (Some ''star-cover'')"
    by (simp_all add: blobToBase64_def library_runtime_def split_comma_second_def)
  have g: "generateContent library_runtime i
             (cover_request library_runtime q ''moon-cover'' (Some ''moon-cover''))
           = Response (Some ''NO'')"
    "generateContent library_runtime i
             (cover_request library_runtime q ''star-cover'' (Some ''star-cover''))
           = Response (Some '' yes '')"
    by (simp_all add: library_runtime_def cover_request_def)
  have y: "answered_yes library_runtime (Response (Some '' yes ''))"
    "\<not> answered_yes library_runtime (Response (Some ''NO''))"
    using library_answers by (simp_all add: answered_yes_def)
  show "ai_match library_runtime q i moon_tales =
     (None, [\<lparr>call_index = i, call_comic = moon_tales,
              call_request = cover_request library_runtime q ''moon-cover'' (Some ''moon-cover''),
              call_response = Response (Some ''NO'')\<rparr>])"
    using b g y by (simp add: ai_match_def Let_def moon_tales_def)
  show "ai_match library_runtime q i star_dust =
     (Some star_dust, [\<lparr>call_index = i, call_comic = star_dust,
              call_request = cover_request library_runtime q ''star-cover'' (Some ''star-cover''),
              call_response = Response (Some '' yes '')\<rparr>])"
    using b g y by (simp add: ai_match_def Let_def star_dust_def)
  show "ai_match library_runtime q i plain_book = (None, [])"
    by (simp add: ai_match_def plain_book_def)
qed

lemma library_ids:
  "comic_id moon_tales = 1" "comic_id star_dust = 2" "comic_id plain_book = 3"
  by (simp_all add: moon_tales_def star_dust_def plain_book_def)

lemma library_key_present: "\<not> api_key_missing library_runtime"
  by (simp add: api_key_missing_def library_runtime_def)

lemma search_calls_zzz:
  "snd (searchComicCovers library_runtime [moon_tales, star_dust, plain_book] ''zzz'') =
     [\<lparr>call_index = 0, call_comic = moon_tales,
       call_request = cover_request library_runtime ''zzz'' ''moon-cover'' (Some ''moon-cover''),
       call_response = Response (Some ''NO'')\<rparr>,
      \<lparr>call_index = 1, call_comic = star_dust,
       call_request = cover_request library_runtime ''zzz'' ''star-cover'' (Some ''star-cover''),
       call_response = Response (Some '' yes '')\<rparr>]"
proof -
  have ts: "comicsToSearchAi library_runtime [moon_tales, star_dust, plain_book] ''zzz''
            = [moon_tales, star_dust, plain_book]"
    using library_titles_zzz
    by (simp add: comicsToSearchAi_def Let_def title_matches_sublist)
  show ?thesis
    using library_key_present
    by (simp add: searchComicCovers_def Let_def ts library_ai_match)
qed

lemma search_calls_moon:
  "snd (searchComicCovers library_runtime [moon_tales, star_dust, plain_book] ''moon'') =
     [\<lparr>call_index = 0, call_comic = star_dust,
       call_request = cover_request library_runtime ''moon'' ''star-cover'' (Some ''star-cover''),
       call_response = Response (Some '' yes '')\<rparr>]"
proof -
  have ts: "comicsToSearchAi library_runtime [moon_tales, star_dust, plain_book] ''moon''
            = [star_dust, plain_book]"
    using library_titles_moon
    by (simp add: comicsToSearchAi_def Let_def title_matches_sublist library_ids)
  show ?thesis
    using library_key_present
    by (simp add: searchComicCovers_def Let_def ts library_ai_match)
qed


subsection \<open>The callbacks in flight\<close>










text \<open>
  Run to the end, the callbacks settle with the values of \<open>ai_match\<close>: the result that
  \<^verbatim>\<open>Promise.all\<close> hands over is the one \<open>searchComicCovers\<close> computes.
\<close>

lemma settle_one:
  "(turn rt query)\<^sup>*\<^sup>* (pre @ start_task c # post)
      (pre @ Settled (fst (ai_match rt query (length pre) c)) # post)"
proof (cases "coverImageBlob c")
  case None
  then show ?thesis by (simp add: start_task_def ai_match_def)
next
  case (Some b)
  let ?ts = "pre @ start_task c # post"
  have i: "length pre < length ?ts" by simp
  have at: "?ts ! length pre = AwaitingBase64 c b"
    by (simp add: start_task_def Some)
  show ?thesis
  proof (cases "blobToBase64 rt b")
    case (Inl e)
    from turn.base64_rejected[OF i at Inl, of query]
    have "turn rt query ?ts (pre @ Settled None # post)" by simp
    then show ?thesis by (simp add: ai_match_def Some Inl)
  next
    case (Inr d)
    let ?req = "cover_request rt query b d"
    let ?us = "pre @ InFlight c ?req # post"
    from turn.base64_resolved[OF i at Inr, of query]
    have s1: "turn rt query ?ts ?us" by simp
    have j: "length pre < length ?us" by simp
    have au: "?us ! length pre = InFlight c ?req" by simp
    from turn.response_arrived[OF j au, of rt query]
    have s2: "turn rt query ?us
       (pre @ Settled (if answered_yes rt (generateContent rt (length pre) ?req)
                       then Some c else None) # post)" by simp
    have "fst (ai_match rt query (length pre) c)
          = (if answered_yes rt (generateContent rt (length pre) ?req) then Some c else None)"
      by (simp add: ai_match_def Some Inr Let_def)
    then show ?thesis using s1 s2 by (simp only: rtranclp.intros(2)[OF r_into_rtranclp])
  qed
qed

lemma settle_prefix:
  "k \<le> length cs \<Longrightarrow>
   (turn rt query)\<^sup>*\<^sup>* (map start_task cs)
      (map (\<lambda>(i, c). Settled (fst (ai_match rt query i c))) (enumerate 0 (take k cs))
       @ map start_task (drop k cs))"
proof (induction k)
  case 0
  then show ?case by simp
next
  case (Suc k)
  then have k: "k < length cs" by simp
  let ?pre = "map (\<lambda>(i, c). Settled (fst (ai_match rt query i c))) (enumerate 0 (take k cs))"
  have lp: "length ?pre = k" using k by simp
  have d: "drop k cs = cs ! k # drop (Suc k) cs"
    using k by (simp add: Cons_nth_drop_Suc)
  have t: "enumerate 0 (take (Suc k) cs) = enumerate 0 (take k cs) @ [(k, cs ! k)]"
    using k by (simp add: take_Suc_conv_app_nth enumerate_append_eq min_def)
  have "(turn rt query)\<^sup>*\<^sup>* (?pre @ start_task (cs ! k) # map start_task (drop (Suc k) cs))
          (?pre @ Settled (fst (ai_match rt query (length ?pre) (cs ! k)))
             # map start_task (drop (Suc k) cs))"
    by (rule settle_one)
  then have "(turn rt query)\<^sup>*\<^sup>* (?pre @ map start_task (drop k cs))
          (map (\<lambda>(i, c). Settled (fst (ai_match rt query i c))) (enumerate 0 (take (Suc k) cs))
           @ map start_task (drop (Suc k) cs))"
    unfolding lp unfolding d t by simp
  moreover have "(turn rt query)\<^sup>*\<^sup>* (map start_task cs) (?pre @ map start_task (drop k cs))"
    using Suc.IH k by simp
  ultimately show ?case by (rule rtranclp_trans[rotated])
qed

lemma callbacks_settle:
  "(turn rt query)\<^sup>*\<^sup>* (search_tasks rt allComics query)
      (map (\<lambda>(i, c). Settled (fst (ai_match rt query i c)))
         (enumerate 0 (comicsToSearchAi rt allComics query)))"
  using settle_prefix[of "length (comicsToSearchAi rt allComics query)"
          "comicsToSearchAi rt allComics query" rt query]
  by (simp add: search_tasks_def)





section \<open>Reading operations\<close>

text \<open>
  C10. \<open>getAllComics\<close>, when the engine does not fail, returns the records of the comics
  store, each as often as the store holds it and no other, with \<open>createdAt\<close> descending
  along the list (newest first), whatever the store contains.
\<close>

theorem getAllComics_newest_first:
  "\<exists>cs. getAllComics NoFault db = Inr cs \<and> mset cs = mset (comics db)
        \<and> sorted_wrt (\<lambda>a b. createdAt a \<ge> createdAt b) cs"
proof -
  let ?cs = "sort_key (\<lambda>x. - createdAt x) (comics db)"
  have "getAllComics NoFault db = Inr ?cs"
    by (simp add: getAllComics_def js_sort_desc)
  moreover have "mset ?cs = mset (comics db)" by simp
  moreover have "sorted (map (\<lambda>x. - createdAt x) ?cs)" by (rule sorted_sort_key)
  then have "sorted_wrt (\<lambda>a b. createdAt a \<ge> createdAt b) ?cs"
    by (simp add: sorted_map)
  ultimately show ?thesis by blast
qed

text \<open>
  C6. \<open>getComicPages c\<close>, when the engine does not fail, returns exactly the stored pages
  whose \<open>comicId\<close> is \<open>c\<close>, each cut down to the fields \<open>id\<close>, \<open>blob\<close> and \<open>order\<close>, in
  ascending order of \<open>order\<close>.
\<close>

theorem getComicPages_sorted_projection:
  "\<exists>ps. getComicPages NoFault c db = Inr ps
        \<and> mset ps = image_mset ComicPage.truncate
                       (filter_mset (\<lambda>p. comicId p = c) (mset (pages db)))
        \<and> sorted (map order ps)"
proof -
  let ?qs = "sort_key order (index_getAll c (pages db))"
  let ?ps = "map ComicPage.truncate ?qs"
  have "getComicPages NoFault c db = Inr ?ps"
    by (simp add: getComicPages_def js_sort_sort_key ComicPage.truncate_def)
  moreover have "mset ?ps = image_mset ComicPage.truncate
                       (filter_mset (\<lambda>p. comicId p = c) (mset (pages db)))"
    by (simp add: index_getAll_def)
  moreover have "map order ?ps = map order ?qs"
    by (simp add: ComicPage.truncate_def)
  then have "sorted (map order ?ps)" by (simp only: sorted_sort_key)
  ultimately show ?thesis by blast
qed


section \<open>Deleting a comic\<close>

text \<open>
  C4. In a page store with one record per key, \<open>deleteComic c\<close>, when the engine does
  not fail, removes the comic record with identifier \<open>c\<close> and every page whose
  \<open>comicId\<close> is \<open>c\<close>; the other comic records and the pages of other comics stay as they
  are, in the same order.
\<close>

theorem deleteComic_cascade:
  assumes "wf_store page_id (pages db)"
  shows "\<exists>db'. deleteComic NoFault c db = (Inr (), db')
           \<and> comics db' = filter (\<lambda>x. comic_id x \<noteq> c) (comics db)
           \<and> pages db' = filter (\<lambda>p. comicId p \<noteq> c) (pages db)"
  using assms cursor_delete_all_filter[OF wf_store_distinct[OF assms], of c]
  by (simp add: deleteComic_def store_delete_def)

theorem deleteComic_cascade_witness:
  "wf_store page_id (pages library_db)
   \<and> (\<exists>db'. deleteComic NoFault 1 library_db = (Inr (), db')
          \<and> comics db' = [star_dust] \<and> pages db' = [page20])"
proof -
  have h: "wf_store page_id (pages library_db)"
    using wf_library_db by (simp add: wf_db_def)
  show ?thesis
    using h deleteComic_cascade[OF h, of 1] by (simp add: library_defs)
qed


section \<open>Updating a comic that is not there\<close>

text \<open>
  C7. When the comics store has no record for \<open>c\<close> and the engine opens and reads,
  \<open>updateComicProgress\<close> resolves and leaves the database as it is, while
  \<open>updateComicCover\<close> and \<open>updateComicTitle\<close> reject with a comic-not-found error (the
  messages are \<^verbatim>\<open>Comic not found\<close> and \<^verbatim>\<open>Comic not found for title update\<close>) and leave
  the database as it is. In each of the three operations, for every database, a
  rejection leaves the database unchanged.
\<close>

theorem update_missing_comic:
  assumes "store_get comic_id c (comics db) = None"
  shows "(f = NoFault \<or> f = WriteFailed \<longrightarrow> updateComicProgress f c i db = (Inr (), db))
       \<and> (f = NoFault \<or> f = WriteFailed \<longrightarrow>
            updateComicCover f c b db = (Inl (Error ''Comic not found''), db))
       \<and> (f = NoFault \<or> f = WriteFailed \<longrightarrow>
            updateComicTitle f c t db = (Inl (Error ''Comic not found for title update''), db))
       \<and> (\<forall>g k d e. fst (updateComicProgress g k i d) = Inl e
              \<longrightarrow> snd (updateComicProgress g k i d) = d)
       \<and> (\<forall>g k d e. fst (updateComicCover g k b d) = Inl e
              \<longrightarrow> snd (updateComicCover g k b d) = d)
       \<and> (\<forall>g k d e. fst (updateComicTitle g k t d) = Inl e
              \<longrightarrow> snd (updateComicTitle g k t d) = d)"
  using assms
  by (auto simp: updateComicProgress_def updateComicCover_def updateComicTitle_def
           split: option.splits)

theorem update_missing_comic_witness:
  "store_get comic_id 7 (comics library_db) = None
   \<and> updateComicProgress NoFault 7 4 library_db = (Inr (), library_db)
   \<and> updateComicCover NoFault 7 ''new-cover'' library_db
       = (Inl (Error ''Comic not found''), library_db)
   \<and> updateComicTitle NoFault 7 ''New'' library_db
       = (Inl (Error ''Comic not found for title update''), library_db)
   \<and> fst (updateComicTitle WriteFailed 1 ''New'' library_db) = Inl DOMException
   \<and> snd (updateComicTitle WriteFailed 1 ''New'' library_db) = library_db"
proof -
  have h: "store_get comic_id 7 (comics library_db) = None"
    by (simp add: store_get_def library_defs)
  have e: "fst (updateComicTitle WriteFailed 1 ''New'' library_db) = Inl DOMException"
    by (simp add: updateComicTitle_def store_get_def library_defs)
  note t = update_missing_comic[OF h, of NoFault 4 "''new-cover''" "''New''"]
  have s: "snd (updateComicTitle WriteFailed 1 ''New'' library_db) = library_db"
    using t e by blast
  show ?thesis
    using h e s t by blast
qed


section \<open>Deleting a page\<close>

text \<open>
  C1. In a page store with one record per key, after \<open>deleteComicPage pageId c\<close> the
  pages of comic \<open>c\<close>, listed by ascending \<open>order\<close>, are the pages that remained after
  the deletion in the order of their previous \<open>order\<close> values (the stable sort of the
  records the index hands out), the page at position \<open>i\<close> now carrying \<open>order = i\<close>; so
  the \<open>order\<close> fields are exactly \<open>0, ..., n - 1\<close> for the \<open>n\<close> remaining pages, none
  of which is lost, and nothing else of a page has changed.
\<close>

theorem deleteComicPage_renumbers:
  fixes db :: "('k::linorder, 'b) database"
  assumes "wf_store page_id (pages db)"
    and "deleteComicPage NoFault pageId c db = (r, db')"
  shows "sort_key order (index_getAll c (pages db'))
           = map (\<lambda>(p, i). p\<lparr>order := int i\<rparr>)
               (zip (sort_key order (index_getAll c (store_delete page_id pageId (pages db))))
                    [0..<length (index_getAll c (pages db'))])
         \<and> map order (sort_key order (index_getAll c (pages db')))
           = map int [0..<length (index_getAll c (pages db'))]
         \<and> length (index_getAll c (pages db'))
           = length (index_getAll c (store_delete page_id pageId (pages db)))"
proof -
  have db': "db' = deleteComicPage_tx pageId c db"
    using assms(2) by (simp add: deleteComicPage_def)
  have len: "length (index_getAll c (pages db'))
             = length (index_getAll c (store_delete page_id pageId (pages db)))"
    unfolding db' by (rule deleteComicPage_tx_remaining(2)[OF assms(1)])
  have eq: "sort_key order (index_getAll c (pages db'))
           = map (\<lambda>(p, i). p\<lparr>order := int i\<rparr>)
               (zip (sort_key order (index_getAll c (store_delete page_id pageId (pages db))))
                    [0..<length (index_getAll c (pages db'))])"
    unfolding len unfolding db' by (rule deleteComicPage_tx_remaining(1)[OF assms(1)])
  have "map order (map (\<lambda>(p, i). p\<lparr>order := int i\<rparr>)
               (zip (sort_key order (index_getAll c (store_delete page_id pageId (pages db))))
                    [0..<length (index_getAll c (pages db'))]))
        = map int [0..<length (index_getAll c (pages db'))]"
    by (rule order_of_numbered) (simp add: len)
  then show ?thesis using eq len by simp
qed


theorem deleteComicPage_renumbers_witness:
  "wf_store page_id (pages library_db)
   \<and> deleteComicPage NoFault 11 1 library_db =
       (Inr (),
        \<lparr>comics = [moon_tales\<lparr>totalPages := 2, lastReadPage := Some 1\<rparr>, star_dust],
         pages = [page10\<lparr>order := 1\<rparr>, page12\<lparr>order := 0\<rparr>, page20]\<rparr>)
   \<and> sort_key order (index_getAll 1 [page10\<lparr>order := 1\<rparr>, page12\<lparr>order := 0\<rparr>, page20])
       = [page12\<lparr>order := 0\<rparr>, page10\<lparr>order := 1\<rparr>]
   \<and> sort_key order (index_getAll 1 (store_delete page_id 11 (pages library_db)))
       = [page12, page10]"
proof -
  note t = deleteComicPage_renumbers[OF wf_library_pages deleteComicPage_library_11]
  have b: "sort_key order (index_getAll 1 (store_delete page_id 11 (pages library_db)))
       = [page12, page10]"
    by (simp add: index_getAll_def store_delete_def library_defs)
  have n: "length (index_getAll 1 [page10\<lparr>order := 1\<rparr>, page12\<lparr>order := 0\<rparr>, page20]) = 2"
    by (simp add: index_getAll_def library_defs)
  have u: "[0..<2] = [0, Suc 0]" by (simp add: upt_conv_Cons)
  have "sort_key order (index_getAll 1 [page10\<lparr>order := 1\<rparr>, page12\<lparr>order := 0\<rparr>, page20])
       = [page12\<lparr>order := 0\<rparr>, page10\<lparr>order := 1\<rparr>]"
    using t unfolding database.simps b n u by simp
  then show ?thesis
    using wf_library_pages deleteComicPage_library_11 b by simp
qed


text \<open>
  C2. If after \<open>deleteComicPage pageId c\<close> no page with \<open>comicId = c\<close> is left, the
  comics store has no record with identifier \<open>c\<close> any more.
\<close>

theorem deleteComicPage_last_page:
  fixes db :: "('k::linorder, 'b) database"
  assumes "wf_store page_id (pages db)"
    and "deleteComicPage NoFault pageId c db = (r, db')"
    and "index_getAll c (pages db') = []"
  shows "store_get comic_id c (comics db') = None"
proof -
  have db': "db' = deleteComicPage_tx pageId c db"
    using assms(2) by (simp add: deleteComicPage_def)
  have "length (index_getAll c (store_delete page_id pageId (pages db))) = 0"
    using deleteComicPage_tx_remaining(2)[OF assms(1), of c pageId] assms(3)
    unfolding db' by simp
  then have "comics db' = store_delete comic_id c (comics db)"
    unfolding db' by (simp add: deleteComicPage_tx_def Let_def)
  then show ?thesis by (simp add: store_get_delete)
qed


theorem deleteComicPage_last_page_witness:
  "wf_store page_id (pages library_db)
   \<and> deleteComicPage NoFault 20 2 library_db =
       (Inr (), \<lparr>comics = [moon_tales], pages = [page10, page11, page12]\<rparr>)
   \<and> index_getAll 2 [page10, page11, page12] = []
   \<and> store_get comic_id 2 [moon_tales] = None"
proof -
  have e: "index_getAll 2 (pages \<lparr>comics = [moon_tales], pages = [page10, page11, page12]\<rparr>) = []"
    by (simp add: index_getAll_def library_defs)
  note t = deleteComicPage_last_page[OF wf_library_pages deleteComicPage_library_20 e]
  show ?thesis
    using wf_library_pages deleteComicPage_library_20 e t by simp
qed


text \<open>
  C3. If the comic \<open>c\<close> still has a record after \<open>deleteComicPage pageId c\<close>, that record
  existed before, its \<open>totalPages\<close> is now the number of pages left for \<open>c\<close>, which is
  positive, and its cursor \<open>lastReadPage\<close> is treated as follows: a cursor at or beyond
  the new count becomes \<open>totalPages - 1\<close>; a cursor below it, or an undefined one, is
  kept. Hence a cursor that was not negative satisfies
  \<open>0 \<le> lastReadPage < totalPages\<close> afterwards.
\<close>

theorem deleteComicPage_totalPages_cursor:
  fixes db :: "('k::linorder, 'b) database"
  assumes "wf_store page_id (pages db)"
    and "deleteComicPage NoFault pageId c db = (r, db')"
    and "store_get comic_id c (comics db') = Some comic'"
  shows "totalPages comic' = int (length (index_getAll c (pages db')))
       \<and> 0 < totalPages comic'
       \<and> (\<exists>comic. store_get comic_id c (comics db) = Some comic
            \<and> (\<forall>l. lastReadPage comic = Some l \<and> totalPages comic' \<le> l \<longrightarrow>
                  lastReadPage comic' = Some (totalPages comic' - 1))
            \<and> (\<forall>l. lastReadPage comic = Some l \<and> l < totalPages comic' \<longrightarrow>
                  lastReadPage comic' = Some l)
            \<and> (lastReadPage comic = None \<longrightarrow> lastReadPage comic' = None)
            \<and> (\<forall>l. lastReadPage comic = Some l \<and> 0 \<le> l \<longrightarrow>
                  (\<exists>l'. lastReadPage comic' = Some l' \<and> 0 \<le> l' \<and> l' < totalPages comic')))"
proof -
  have db': "db' = deleteComicPage_tx pageId c db"
    using assms(2) by (simp add: deleteComicPage_def)
  define n where "n = int (length (index_getAll c (store_delete page_id pageId (pages db))))"
  have len: "int (length (index_getAll c (pages db'))) = n"
    unfolding db' n_def by (simp add: deleteComicPage_tx_remaining(2)[OF assms(1)])
  obtain comic where ne: "index_getAll c (store_delete page_id pageId (pages db)) \<noteq> []"
    and comic: "store_get comic_id c (comics db) = Some comic"
    and new: "comic' = clamp_lastReadPage (comic\<lparr>totalPages := n\<rparr>)"
    using deleteComicPage_tx_survivor[OF assms(3)[unfolded db']] unfolding n_def by blast
  have npos: "0 < n" using ne by (simp add: n_def)
  have tp: "totalPages comic' = n"
    unfolding new by (simp add: clamp_lastReadPage_def split: option.splits)
  have c1: "\<forall>l. lastReadPage comic = Some l \<and> n \<le> l \<longrightarrow> lastReadPage comic' = Some (n - 1)"
    unfolding new using npos by (simp add: clamp_lastReadPage_def)
  have c2: "\<forall>l. lastReadPage comic = Some l \<and> l < n \<longrightarrow> lastReadPage comic' = Some l"
    unfolding new by (simp add: clamp_lastReadPage_def)
  have c3: "lastReadPage comic = None \<longrightarrow> lastReadPage comic' = None"
    unfolding new by (simp add: clamp_lastReadPage_def)
  have c4: "\<forall>l. lastReadPage comic = Some l \<and> 0 \<le> l \<longrightarrow>
                  (\<exists>l'. lastReadPage comic' = Some l' \<and> 0 \<le> l' \<and> l' < n)"
    unfolding new using npos by (auto simp: clamp_lastReadPage_def)
  show ?thesis
    unfolding tp len by (intro conjI exI[of _ comic] refl npos comic c1 c2 c3 c4)
qed

theorem deleteComicPage_totalPages_cursor_witness:
  "wf_store page_id (pages library_db)
   \<and> deleteComicPage NoFault 11 1 library_db =
       (Inr (),
        \<lparr>comics = [moon_tales\<lparr>totalPages := 2, lastReadPage := Some 1\<rparr>, star_dust],
         pages = [page10\<lparr>order := 1\<rparr>, page12\<lparr>order := 0\<rparr>, page20]\<rparr>)
   \<and> store_get comic_id 1 [moon_tales\<lparr>totalPages := 2, lastReadPage := Some 1\<rparr>, star_dust]
       = Some (moon_tales\<lparr>totalPages := 2, lastReadPage := Some 1\<rparr>)
   \<and> totalPages (moon_tales\<lparr>totalPages := 2, lastReadPage := Some 1\<rparr>)
       = int (length (index_getAll 1 [page10\<lparr>order := 1\<rparr>, page12\<lparr>order := 0\<rparr>, page20]))
   \<and> lastReadPage moon_tales = Some 2"
proof -
  have g: "store_get comic_id 1
             (comics \<lparr>comics = [moon_tales\<lparr>totalPages := 2, lastReadPage := Some 1\<rparr>, star_dust],
                      pages = [page10\<lparr>order := 1\<rparr>, page12\<lparr>order := 0\<rparr>, page20]\<rparr>)
           = Some (moon_tales\<lparr>totalPages := 2, lastReadPage := Some 1\<rparr>)"
    by (simp add: store_get_def library_defs)
  note t = deleteComicPage_totalPages_cursor[OF wf_library_pages deleteComicPage_library_11 g]
  have l: "lastReadPage moon_tales = Some 2" by (simp add: library_defs)
  show ?thesis
    using wf_library_pages deleteComicPage_library_11 g t l by simp
qed


section \<open>The schema\<close>

text \<open>
  C9. The upgrade of a database that does not exist yet creates exactly two object
  stores, \<^verbatim>\<open>comics\<close> and \<^verbatim>\<open>pages\<close>, both with key path \<^verbatim>\<open>id\<close>, and exactly one index,
  \<^verbatim>\<open>comicId\<close> on the field \<^verbatim>\<open>comicId\<close> of \<^verbatim>\<open>pages\<close>, not unique; that is the schema
  \<open>openDB\<close> delivers. Every operation of the persistence layer opens its transaction
  on these stores only, takes only stores of its transaction, and opens no index but
  that one.
\<close>

theorem schema_two_stores_one_index:
  "onupgradeneeded [] =
     [\<lparr>store_name = ''comics'', store_keyPath = ''id'', store_indexes = []\<rparr>,
      \<lparr>store_name = ''pages'', store_keyPath = ''id'',
       store_indexes = [\<lparr>index_name = ''comicId'', index_keyPath = ''comicId'',
                         index_unique = False\<rparr>]\<rparr>]
   \<and> openDB None = Inr (1, onupgradeneeded [])
   \<and> set (objectStore_calls op) \<union> set (transaction_stores op)
       \<subseteq> set (objectStoreNames (onupgradeneeded []))
   \<and> set (objectStore_calls op) \<subseteq> set (transaction_stores op)
   \<and> set (index_calls op) \<subseteq> {(''pages'', ''comicId'')}"
proof -
  have up: "onupgradeneeded [] =
     [\<lparr>store_name = ''comics'', store_keyPath = ''id'', store_indexes = []\<rparr>,
      \<lparr>store_name = ''pages'', store_keyPath = ''id'',
       store_indexes = [\<lparr>index_name = ''comicId'', index_keyPath = ''comicId'',
                         index_unique = False\<rparr>]\<rparr>]"
    by (simp add: onupgradeneeded_def objectStoreNames_def createObjectStore_def
          createIndex_def STORE_COMICS_def STORE_PAGES_def)
  have op: "openDB None = Inr (1, onupgradeneeded [])"
    by (simp add: openDB_def DB_VERSION_def)
  have names: "set (objectStoreNames (onupgradeneeded [])) = {''comics'', ''pages''}"
    unfolding up by (simp add: objectStoreNames_def)
  have a: "set (objectStore_calls op) \<union> set (transaction_stores op)
       \<subseteq> set (objectStoreNames (onupgradeneeded []))"
    unfolding names by (cases op) (simp_all add: STORE_COMICS_def STORE_PAGES_def)
  have b: "set (objectStore_calls op) \<subseteq> set (transaction_stores op)"
    by (cases op) simp_all
  have c: "set (index_calls op) \<subseteq> {(''pages'', ''comicId'')}"
    by (cases op) (simp_all add: STORE_PAGES_def)
  show ?thesis using up op a b c by (intro conjI)
qed


section \<open>The cover search\<close>

text \<open>
  C5. With an API key configured, \<open>searchComicCovers\<close> returns, for every list of comics
  and every query, first the comics whose lower-cased title contains the lower-cased
  query as a contiguous piece, in the order of the list, and after them the comics of
  those calls of the model whose answer has a text that, trimmed and upper-cased, is
  \<^verbatim>\<open>YES\<close>. Every call of the model is for a comic of the list whose title does not
  contain the query, and carries the answer the model gave to it; so a comic whose
  title matches is in the result and no call is made for it. The comics called for
  are, in the order of the list, those whose identifier is not the identifier of a
  title match and whose cover is present and is read as a string.
\<close>

theorem searchComicCovers_prefilter:
  assumes "API_KEY rt = Some k" and "k \<noteq> []"
  shows "\<exists>res calls. searchComicCovers rt allComics query = (Inr res, calls)
     \<and> res = filter (\<lambda>c. sublist (toLowerCase rt query) (toLowerCase rt (title c))) allComics
             @ map call_comic
                 (filter (\<lambda>cl. \<exists>t. call_response cl = Response (Some t)
                                  \<and> toUpperCase rt (trim rt t) = ''YES'') calls)
     \<and> (\<forall>cl \<in> set calls. call_comic cl \<in> set allComics
            \<and> \<not> sublist (toLowerCase rt query) (toLowerCase rt (title (call_comic cl)))
            \<and> call_response cl = generateContent rt (call_index cl) (call_request cl))
     \<and> (\<forall>c \<in> set allComics.
            sublist (toLowerCase rt query) (toLowerCase rt (title c)) \<longrightarrow>
            c \<in> set res \<and> c \<notin> call_comic ` set calls)
     \<and> map call_comic calls
         = filter (\<lambda>c. \<exists>b s. coverImageBlob c = Some b \<and> readAsDataURL rt b = ReaderString s)
             (filter (\<lambda>c. comic_id c \<notin> comic_id `
                 {m \<in> set allComics. sublist (toLowerCase rt query) (toLowerCase rt (title m))})
               allComics)"
proof -
  define calls where "calls = concat (map snd (map (\<lambda>(i, comic). ai_match rt query i comic)
                  (enumerate 0 (comicsToSearchAi rt allComics query))))"
  define res where "res = filter (\<lambda>c. sublist (toLowerCase rt query) (toLowerCase rt (title c))) allComics
             @ map call_comic
                 (filter (\<lambda>cl. \<exists>t. call_response cl = Response (Some t)
                                  \<and> toUpperCase rt (trim rt t) = ''YES'') calls)"
  have key: "\<not> api_key_missing rt"
    using assms by (simp add: api_key_missing_iff)
  have tm: "title_matches rt query = (\<lambda>c. sublist (toLowerCase rt query) (toLowerCase rt (title c)))"
    by (rule ext) (rule title_matches_sublist)
  have ay: "(\<lambda>cl. answered_yes rt (call_response cl))
            = (\<lambda>cl. \<exists>t. call_response cl = Response (Some t)
                                  \<and> toUpperCase rt (trim rt t) = ''YES'')"
    by (rule ext) (rule answered_yes_text)
  have run: "searchComicCovers rt allComics query = (Inr res, calls)"
    unfolding res_def calls_def using searchComicCovers_run[OF key, of allComics query]
    unfolding tm ay .
  have each: "\<forall>cl \<in> set calls. call_comic cl \<in> set allComics
            \<and> \<not> sublist (toLowerCase rt query) (toLowerCase rt (title (call_comic cl)))
            \<and> call_response cl = generateContent rt (call_index cl) (call_request cl)"
  proof
    fix cl assume "cl \<in> set calls"
    then have c: "call_comic cl \<in> snd ` set (enumerate 0 (comicsToSearchAi rt allComics query))"
      and r: "call_response cl = generateContent rt (call_index cl) (call_request cl)"
      using settled_calls_comic[of cl rt query] unfolding calls_def by blast+
    from c have "call_comic cl \<in> set (comicsToSearchAi rt allComics query)"
      by (metis map_snd_enumerate set_map)
    from comicsToSearchAi_unmatched[OF this] r
    show "call_comic cl \<in> set allComics
            \<and> \<not> sublist (toLowerCase rt query) (toLowerCase rt (title (call_comic cl)))
            \<and> call_response cl = generateContent rt (call_index cl) (call_request cl)"
      by (simp add: title_matches_sublist)
  qed
  have pre: "\<forall>c \<in> set allComics.
            sublist (toLowerCase rt query) (toLowerCase rt (title c)) \<longrightarrow>
            c \<in> set res \<and> c \<notin> call_comic ` set calls"
    using each by (auto simp: res_def)
  have called: "map call_comic calls
         = filter (\<lambda>c. \<exists>b s. coverImageBlob c = Some b \<and> readAsDataURL rt b = ReaderString s)
             (filter (\<lambda>c. comic_id c \<notin> comic_id `
                 {m \<in> set allComics. sublist (toLowerCase rt query) (toLowerCase rt (title m))})
               allComics)"
    unfolding calls_def settled_called map_snd_enumerate
    by (simp only: comicsToSearchAi_ids)
  show ?thesis using run each pre called res_def by blast
qed

theorem searchComicCovers_prefilter_witness:
  "API_KEY library_runtime = Some ''secret'' \<and> ''secret'' \<noteq> []
   \<and> searchComicCovers library_runtime [moon_tales, star_dust, plain_book] ''zzz'' =
       (Inr [star_dust],
        [\<lparr>call_index = 0, call_comic = moon_tales,
          call_request = cover_request library_runtime ''zzz'' ''moon-cover'' (Some ''moon-cover''),
          call_response = Response (Some ''NO'')\<rparr>,
         \<lparr>call_index = 1, call_comic = star_dust,
          call_request = cover_request library_runtime ''zzz'' ''star-cover'' (Some ''star-cover''),
          call_response = Response (Some '' yes '')\<rparr>])
   \<and> searchComicCovers library_runtime [moon_tales, star_dust, plain_book] ''moon'' =
       (Inr [moon_tales, star_dust],
        [\<lparr>call_index = 0, call_comic = star_dust,
          call_request = cover_request library_runtime ''moon'' ''star-cover'' (Some ''star-cover''),
          call_response = Response (Some '' yes '')\<rparr>])"
proof -
  have k: "API_KEY library_runtime = Some ''secret''" "''secret'' \<noteq> []"
    by (simp_all add: library_runtime_def)
  from searchComicCovers_prefilter[OF k, of "[moon_tales, star_dust, plain_book]" "''zzz''"]
  obtain res calls where
    r: "searchComicCovers library_runtime [moon_tales, star_dust, plain_book] ''zzz''
         = (Inr res, calls)"
    and e: "res = filter (\<lambda>c. sublist (toLowerCase library_runtime ''zzz'')
                            (toLowerCase library_runtime (title c)))
                   [moon_tales, star_dust, plain_book]
             @ map call_comic
                 (filter (\<lambda>cl. \<exists>t. call_response cl = Response (Some t)
                      \<and> toUpperCase library_runtime (trim library_runtime t) = ''YES'') calls)"
    by blast
  from r search_calls_zzz have c: "calls =
     [\<lparr>call_index = 0, call_comic = moon_tales,
       call_request = cover_request library_runtime ''zzz'' ''moon-cover'' (Some ''moon-cover''),
       call_response = Response (Some ''NO'')\<rparr>,
      \<lparr>call_index = 1, call_comic = star_dust,
       call_request = cover_request library_runtime ''zzz'' ''star-cover'' (Some ''star-cover''),
       call_response = Response (Some '' yes '')\<rparr>]" by simp
  have "res = [star_dust]"
    unfolding e c using library_titles_zzz library_answers by simp
  with r c have zzz: "searchComicCovers library_runtime [moon_tales, star_dust, plain_book] ''zzz'' =
       (Inr [star_dust],
        [\<lparr>call_index = 0, call_comic = moon_tales,
          call_request = cover_request library_runtime ''zzz'' ''moon-cover'' (Some ''moon-cover''),
          call_response = Response (Some ''NO'')\<rparr>,
         \<lparr>call_index = 1, call_comic = star_dust,
          call_request = cover_request library_runtime ''zzz'' ''star-cover'' (Some ''star-cover''),
          call_response = Response (Some '' yes '')\<rparr>])" by simp
  from searchComicCovers_prefilter[OF k, of "[moon_tales, star_dust, plain_book]" "''moon''"]
  obtain res' calls' where
    r': "searchComicCovers library_runtime [moon_tales, star_dust, plain_book] ''moon''
         = (Inr res', calls')"
    and e': "res' = filter (\<lambda>c. sublist (toLowerCase library_runtime ''moon'')
                            (toLowerCase library_runtime (title c)))
                   [moon_tales, star_dust, plain_book]
             @ map call_comic
                 (filter (\<lambda>cl. \<exists>t. call_response cl = Response (Some t)
                      \<and> toUpperCase library_runtime (trim library_runtime t) = ''YES'') calls')"
    by blast
  from r' search_calls_moon have c': "calls' =
     [\<lparr>call_index = 0, call_comic = star_dust,
       call_request = cover_request library_runtime ''moon'' ''star-cover'' (Some ''star-cover''),
       call_response = Response (Some '' yes '')\<rparr>]" by simp
  have "res' = [moon_tales, star_dust]"
    unfolding e' c' using library_titles_moon library_answers by simp
  with r' c' have moon: "searchComicCovers library_runtime [moon_tales, star_dust, plain_book] ''moon'' =
       (Inr [moon_tales, star_dust],
        [\<lparr>call_index = 0, call_comic = star_dust,
          call_request = cover_request library_runtime ''moon'' ''star-cover'' (Some ''star-cover''),
          call_response = Response (Some '' yes '')\<rparr>])" by simp
  show ?thesis using k zzz moon by (intro conjI)
qed





end
